theory Spec2Isabelle
  imports Main "HOL-Library.Sublist"
begin

section \<open>The S3 backend of the object-storage client\<close>

text \<open>
  The development embeds \<^verbatim>\<open>src/S3Client.py\<close>, class \<^verbatim>\<open>S3Client\<close>. Every method of the
  class is a thin layer over one call of the provider SDK (\<^verbatim>\<open>self.client\<close>, a boto3 S3
  client). The SDK is not part of the repository, so it is a parameter of the model: a record
  of functions, one per SDK method the class calls, each taking the provider's state and
  returning either the exception it raises or its response dictionary, with the provider's
  state after the call. The methods \<^verbatim>\<open>object_set_metadata\<close>, \<^verbatim>\<open>object_delete_metadata\<close>,
  \<^verbatim>\<open>object_upload\<close>, \<^verbatim>\<open>object_download\<close> and \<^verbatim>\<open>object_delete\<close> only raise
  \<^verbatim>\<open>NotImplementedError\<close> and are left out.
\<close>

subsection \<open>Exceptions\<close>

text \<open>
  The exceptions that can reach the methods. \<open>ClientError code\<close> is botocore's exception for
  an error response of the service, with the service's error code; \<open>EndpointConnectionError\<close>
  stands for the transport faults; \<open>AttributeError\<close> is Python's own, raised when
  \<^verbatim>\<open>self.container_name\<close> is read before it was set or when \<^verbatim>\<open>.replace\<close> is called on
  \<^verbatim>\<open>None\<close>.
\<close>

datatype exn =
    ClientError string
  | EndpointConnectionError
  | ParamValidationError
  | AttributeError

subsection \<open>Data model\<close>

text \<open>
  Modelled from the spec: the value classes \<^verbatim>\<open>ContainerInfo\<close>, \<^verbatim>\<open>ObjectInfo\<close> and
  \<^verbatim>\<open>SubdirInfo\<close> come from the module \<^verbatim>\<open>ObjectStorageClient\<close>, which the source imports and
  which is absent. The fields and their positional order are those of the spec's data model
  (name, size in bytes, hash, content type, metadata); the keyword names are the ones
  \<^verbatim>\<open>object_info\<close> uses. A Python \<^verbatim>\<open>None\<close> in a field is \<open>None\<close>.
\<close>

type_synonym metadata_dict = "(string \<times> string) list"

record container_info =
  ci_name :: string
  ci_creation_date :: "string option"
  ci_region :: "string option"

record object_info =
  name :: string
  bytes :: "int option"
  hash :: "string option"
  content_type :: "string option"
  metadata :: "metadata_dict option"

record subdir_info =
  subdir_prefix :: string

text \<open>The element type of a listing, \<^verbatim>\<open>ObjectInfo|SubdirInfo\<close>.\<close>

datatype listing_entry = Object object_info | Subdir subdir_info

text \<open>
  The positional constructor calls of the source:
  \<^verbatim>\<open>ContainerInfo(b['Name'], None, None)\<close>,
  \<^verbatim>\<open>ObjectInfo(o['Key'], o['Size'], o['ETag'], None, None)\<close> and \<^verbatim>\<open>SubdirInfo(o['Prefix'])\<close>.
\<close>

definition ContainerInfo :: "string \<Rightarrow> string option \<Rightarrow> string option \<Rightarrow> container_info" where
  "ContainerInfo n d r = \<lparr>ci_name = n, ci_creation_date = d, ci_region = r\<rparr>"

definition ObjectInfo ::
  "string \<Rightarrow> int option \<Rightarrow> string option \<Rightarrow> string option \<Rightarrow> metadata_dict option \<Rightarrow> object_info" where
  "ObjectInfo n b h ct m = \<lparr>name = n, bytes = b, hash = h, content_type = ct, metadata = m\<rparr>"

definition SubdirInfo :: "string \<Rightarrow> subdir_info" where
  "SubdirInfo p = \<lparr>subdir_prefix = p\<rparr>"

subsection \<open>Requests and responses of the SDK\<close>

text \<open>
  A response is a dictionary; the model keeps the keys the source reads. The source reads
  the status as \<^verbatim>\<open>res.get('ResponseMetadata', {}).get('HTTPStatusCode')\<close>, which is \<^verbatim>\<open>None\<close>
  when either key is missing: an \<open>int option\<close>. A list read with a default
  (\<^verbatim>\<open>res.get('Contents', [])\<close>) is a list, the missing key being the empty list. The
  pagination keys are part of the responses although the source never reads them.
\<close>

type_synonym token = nat

record plain_resp =
  HTTPStatusCode :: "int option"

record bucket_entry =
  Name :: string
  CreationDate :: string

record list_buckets_req =
  lb_Prefix :: "string option"
  lb_ContinuationToken :: "token option"
  lb_MaxBuckets :: "nat option"

record list_buckets_resp = plain_resp +
  Buckets :: "bucket_entry list"
  lb_NextToken :: "token option"

record head_object_resp = plain_resp +
  ContentLength :: "int option"
  ContentType :: "string option"
  ho_ETag :: "string option"
  Metadata :: "metadata_dict option"

datatype directive = COPY | REPLACE

record copy_object_req =
  co_Bucket :: string
  co_Key :: string
  CopySource_Bucket :: string
  CopySource_Key :: string
  co_Metadata :: metadata_dict
  MetadataDirective :: directive

record list_objects_req =
  lo_Bucket :: string
  lo_Prefix :: "string option"
  lo_Delimiter :: "string option"
  lo_ContinuationToken :: "token option"

record content_entry =
  Key :: string
  Size :: int
  ETag :: string

record list_objects_resp = plain_resp +
  Contents :: "content_entry list"
  CommonPrefixes :: "string list"
  IsTruncated :: bool
  NextContinuationToken :: "token option"

text \<open>
  The SDK client \<^verbatim>\<open>self.client\<close>, over a provider state \<open>'s\<close>. \<open>create_bucket\<close> takes the
  bucket name and the location constraint; \<open>head_object\<close> the bucket and the key.
\<close>

record 's sdk =
  create_bucket :: "string \<Rightarrow> string \<Rightarrow> 's \<Rightarrow> (exn + plain_resp) \<times> 's"
  list_buckets :: "list_buckets_req \<Rightarrow> 's \<Rightarrow> (exn + list_buckets_resp) \<times> 's"
  delete_bucket :: "string \<Rightarrow> 's \<Rightarrow> (exn + plain_resp) \<times> 's"
  head_bucket :: "string \<Rightarrow> 's \<Rightarrow> (exn + plain_resp) \<times> 's"
  head_object :: "string \<Rightarrow> string \<Rightarrow> 's \<Rightarrow> (exn + head_object_resp) \<times> 's"
  copy_object :: "copy_object_req \<Rightarrow> 's \<Rightarrow> (exn + plain_resp) \<times> 's"
  list_objects_v2 :: "list_objects_req \<Rightarrow> 's \<Rightarrow> (exn + list_objects_resp) \<times> 's"

subsection \<open>The client object\<close>

text \<open>
  The attributes of an \<^verbatim>\<open>S3Client\<close> besides the SDK client: \<^verbatim>\<open>location\<close>, set by
  \<^verbatim>\<open>__init__\<close>, and \<^verbatim>\<open>container_name\<close>, which \<^verbatim>\<open>__init__\<close> does not set.

  Modelled from the spec: \<^verbatim>\<open>use_container\<close> belongs to the absent base class; the spec
  describes it as selecting the default container, and the attribute as undefined before.
\<close>

record s3client =
  location :: string
  container_name :: "string option"

definition init :: "string \<Rightarrow> s3client" where
  "init loc = \<lparr>location = loc, container_name = None\<rparr>"

definition use_container :: "s3client \<Rightarrow> string \<Rightarrow> s3client" where
  "use_container c n = c\<lparr>container_name := Some n\<rparr>"

text \<open>Reading \<^verbatim>\<open>self.container_name\<close>.\<close>

definition self_container_name :: "s3client \<Rightarrow> exn + string" where
  "self_container_name c = (case container_name c of None \<Rightarrow> Inl AttributeError | Some n \<Rightarrow> Inr n)"

text \<open>The test \<^verbatim>\<open>res.get('ResponseMetadata', {}).get('HTTPStatusCode') == 200\<close>.\<close>

definition status_ok :: "int option \<Rightarrow> bool" where
  "status_ok st = (st = Some 200)"

subsection \<open>Container operations\<close>

text \<open>
  \<^verbatim>\<open>container_create\<close>: the call of \<^verbatim>\<open>create_bucket\<close> sits in a \<^verbatim>\<open>try\<close> whose bare
  \<^verbatim>\<open>except\<close> returns \<^verbatim>\<open>False\<close>, so the method itself raises nothing. The response is
  printed and not inspected; standard output is not part of the model.
\<close>

definition container_create :: "'s sdk \<Rightarrow> s3client \<Rightarrow> string \<Rightarrow> 's \<Rightarrow> bool \<times> 's" where
  "container_create sdk c cname s =
     (case create_bucket sdk cname (location c) s of
        (Inr res, s') \<Rightarrow> (True, s')
      | (Inl e, s') \<Rightarrow> (False, s'))"

text \<open>
  \<^verbatim>\<open>container_list\<close>: one call of \<^verbatim>\<open>list_buckets()\<close> without arguments, that is without
  prefix, continuation token and page size; the parameter \<^verbatim>\<open>prefix\<close> is not used in the
  body. An exception of the call is not caught.
\<close>

definition container_list ::
  "'s sdk \<Rightarrow> s3client \<Rightarrow> string option \<Rightarrow> 's \<Rightarrow> (exn + container_info list) \<times> 's" where
  "container_list sdk c pfx s =
     (case list_buckets sdk \<lparr>lb_Prefix = None, lb_ContinuationToken = None,
                             lb_MaxBuckets = None\<rparr> s of
        (Inl e, s') \<Rightarrow> (Inl e, s')
      | (Inr res, s') \<Rightarrow> (Inr (map (\<lambda>b. ContainerInfo (Name b) None None) (Buckets res)), s'))"

text \<open>
  \<^verbatim>\<open>container_delete\<close>: one call of \<^verbatim>\<open>delete_bucket\<close> in a \<^verbatim>\<open>try\<close> with a bare
  \<^verbatim>\<open>except\<close>; the parameter \<^verbatim>\<open>force\<close> is not used in the body.
\<close>

definition container_delete :: "'s sdk \<Rightarrow> s3client \<Rightarrow> string \<Rightarrow> bool \<Rightarrow> 's \<Rightarrow> bool \<times> 's" where
  "container_delete sdk c cname force s =
     (case delete_bucket sdk cname s of
        (Inr res, s') \<Rightarrow> (True, s')
      | (Inl e, s') \<Rightarrow> (False, s'))"

text \<open>\<^verbatim>\<open>container_info\<close>: \<^verbatim>\<open>None\<close> unless the status is 200; an exception is not caught.\<close>

definition container_info_of ::
  "'s sdk \<Rightarrow> s3client \<Rightarrow> string \<Rightarrow> 's \<Rightarrow> (exn + container_info option) \<times> 's" where
  "container_info_of sdk c cname s =
     (case head_bucket sdk cname s of
        (Inl e, s') \<Rightarrow> (Inl e, s')
      | (Inr res, s') \<Rightarrow>
          (if status_ok (HTTPStatusCode res) then (Inr (Some (ContainerInfo cname None None)), s')
           else (Inr None, s')))"

subsection \<open>Object operations\<close>

text \<open>
  \<^verbatim>\<open>object_info\<close>: \<^verbatim>\<open>head_object\<close> on the bucket \<^verbatim>\<open>self.container_name\<close>. With status
  200 the answer is an \<^verbatim>\<open>ObjectInfo\<close> built by keyword, the hash being the entity tag with
  its double quotes removed (\<^verbatim>\<open>res.get('ETag').replace('"','')\<close>, which raises on a missing
  tag); otherwise \<^verbatim>\<open>None\<close>.
\<close>

definition strip_quotes :: "string \<Rightarrow> string" where
  "strip_quotes t = filter (\<lambda>ch. ch \<noteq> CHR 0x22) t"

definition object_info_of ::
  "'s sdk \<Rightarrow> s3client \<Rightarrow> string \<Rightarrow> 's \<Rightarrow> (exn + object_info option) \<times> 's" where
  "object_info_of sdk c object_name s =
     (case self_container_name c of
        Inl e \<Rightarrow> (Inl e, s)
      | Inr b \<Rightarrow>
         (case head_object sdk b object_name s of
            (Inl e, s') \<Rightarrow> (Inl e, s')
          | (Inr res, s') \<Rightarrow>
              (if status_ok (HTTPStatusCode res) then
                 (case ho_ETag res of
                    None \<Rightarrow> (Inl AttributeError, s')
                  | Some t \<Rightarrow>
                      (Inr (Some \<lparr>name = object_name, bytes = ContentLength res,
                                   hash = Some (strip_quotes t), content_type = ContentType res,
                                   metadata = Metadata res\<rparr>), s'))
               else (Inr None, s'))))"

text \<open>
  \<^verbatim>\<open>object_replace_metadata\<close>: a copy of the object onto itself in the bucket
  \<^verbatim>\<open>self.container_name\<close>, with the new metadata and the directive \<^verbatim>\<open>REPLACE\<close>. The
  result is the comparison of the status with 200; an exception is not caught.
\<close>

definition object_replace_metadata ::
  "'s sdk \<Rightarrow> s3client \<Rightarrow> string \<Rightarrow> metadata_dict \<Rightarrow> 's \<Rightarrow> (exn + bool) \<times> 's" where
  "object_replace_metadata sdk c object_name meta s =
     (case self_container_name c of
        Inl e \<Rightarrow> (Inl e, s)
      | Inr b \<Rightarrow>
         (case copy_object sdk
                 \<lparr>co_Bucket = b, co_Key = object_name,
                  CopySource_Bucket = b, CopySource_Key = object_name,
                  co_Metadata = meta, MetadataDirective = REPLACE\<rparr> s of
            (Inl e, s') \<Rightarrow> (Inl e, s')
          | (Inr res, s') \<Rightarrow> (Inr (status_ok (HTTPStatusCode res)), s')))"

text \<open>
  \<^verbatim>\<open>object_list\<close>. The arguments of the request: \<^verbatim>\<open>Bucket\<close> is the parameter
  \<^verbatim>\<open>container_name\<close>, or \<^verbatim>\<open>self.container_name\<close> when the parameter is \<^verbatim>\<open>None\<close>;
  \<^verbatim>\<open>Prefix\<close> and \<^verbatim>\<open>Delimiter\<close> are passed when truthy, that is neither \<^verbatim>\<open>None\<close> nor
  the empty string. No continuation token is ever passed.
\<close>

definition truthy :: "string option \<Rightarrow> string option" where
  "truthy a = (case a of None \<Rightarrow> None | Some v \<Rightarrow> if v = [] then None else Some v)"

text \<open>
  The loop \<^verbatim>\<open>for i in range(0, len(objects)): objects[i] = self.object_info(objects[i].name)\<close>.
  The list holds \<^verbatim>\<open>ObjectInfo\<close> values and, once replaced, what \<^verbatim>\<open>object_info\<close>
  returned, which may be \<^verbatim>\<open>None\<close>; reading \<^verbatim>\<open>.name\<close> of \<^verbatim>\<open>None\<close> raises. An exception
  of \<^verbatim>\<open>object_info\<close> ends the loop and the method.
\<close>

function fetch_loop ::
  "'s sdk \<Rightarrow> s3client \<Rightarrow> nat \<Rightarrow> object_info option list \<Rightarrow> 's
     \<Rightarrow> (exn + object_info option list) \<times> 's" where
  "fetch_loop sdk c i objects s =
     (if i < length objects then
        (case objects ! i of
           None \<Rightarrow> (Inl AttributeError, s)
         | Some ob \<Rightarrow>
            (case object_info_of sdk c (name ob) s of
               (Inl e, s') \<Rightarrow> (Inl e, s')
             | (Inr r, s') \<Rightarrow> fetch_loop sdk c (Suc i) (objects[i := r]) s'))
      else (Inr objects, s))"
  by pat_completeness auto
termination
  by (relation "measure (\<lambda>(sdk, c, i, objects, s). length objects - i)") auto

declare fetch_loop.simps [simp del]

text \<open>
  The entries of the result: the objects, then \<^verbatim>\<open>objects.extend(subdirs)\<close>. An entry is
  \<open>None\<close> where \<^verbatim>\<open>object_info\<close> returned \<^verbatim>\<open>None\<close>.
\<close>

definition list_request ::
  "s3client \<Rightarrow> string option \<Rightarrow> string option \<Rightarrow> string option \<Rightarrow> exn + list_objects_req" where
  "list_request c pfx delimiter cname =
     (case (case cname of None \<Rightarrow> self_container_name c | Some n \<Rightarrow> Inr n) of
        Inl e \<Rightarrow> Inl e
      | Inr b \<Rightarrow> Inr \<lparr>lo_Bucket = b, lo_Prefix = truthy pfx, lo_Delimiter = truthy delimiter,
                       lo_ContinuationToken = None\<rparr>)"

definition object_list ::
  "'s sdk \<Rightarrow> s3client \<Rightarrow> bool \<Rightarrow> string option \<Rightarrow> string option \<Rightarrow> string option \<Rightarrow> 's
     \<Rightarrow> (exn + listing_entry option list) \<times> 's" where
  "object_list sdk c fetch_metadata pfx delimiter cname s =
     (case list_request c pfx delimiter cname of
        Inl e \<Rightarrow> (Inl e, s)
      | Inr args \<Rightarrow>
         (case list_objects_v2 sdk args s of
            (Inl e, s1) \<Rightarrow> (Inl e, s1)
          | (Inr res, s1) \<Rightarrow>
              (if status_ok (HTTPStatusCode res) then
                 (let objects = map (\<lambda>ob. Some (ObjectInfo (Key ob) (Some (Size ob)) (Some (ETag ob)) None None))
                                    (Contents res);
                      subdirs = map (\<lambda>p. Some (Subdir (SubdirInfo p))) (CommonPrefixes res)
                  in if fetch_metadata then
                       (case fetch_loop sdk c 0 objects s1 of
                          (Inl e, s2) \<Rightarrow> (Inl e, s2)
                        | (Inr objects', s2) \<Rightarrow> (Inr (map (map_option Object) objects' @ subdirs), s2))
                     else (Inr (map (map_option Object) objects @ subdirs), s1))
               else (Inr [], s1))))"

section \<open>An in-memory provider\<close>

text \<open>
  A provider to run the methods against: buckets in a list, each with its objects, answering
  the seven SDK calls as the S3 API reference named in the header of the source describes
  them. An error response of the service is a \<open>ClientError\<close> with the service's code. A
  listing of objects comes in pages of \<open>max_keys\<close> rows with a continuation token, the token
  being the offset of the next row. A listing of buckets is complete in one response unless
  the request asks for pages (\<^verbatim>\<open>MaxBuckets\<close>), which hold \<open>max_buckets\<close> names at most. It
  supplies the concrete inputs of the closed theorems below; the general theorems hold for
  every SDK.
\<close>

record stored_object =
  so_key :: string
  so_body :: string
  so_etag :: string
  so_content_type :: string
  so_metadata :: metadata_dict

record provider =
  store :: "(string \<times> stored_object list) list"
  max_keys :: nat
  max_buckets :: nat

definition find_object :: "stored_object list \<Rightarrow> string \<Rightarrow> stored_object option" where
  "find_object objs k = find (\<lambda>ob. so_key ob = k) objs"

definition lookup_object :: "provider \<Rightarrow> string \<Rightarrow> string \<Rightarrow> stored_object option" where
  "lookup_object s b k = (case map_of (store s) b of None \<Rightarrow> None | Some objs \<Rightarrow> find_object objs k)"

definition put_object :: "stored_object \<Rightarrow> stored_object list \<Rightarrow> stored_object list" where
  "put_object ob objs =
     (if find_object objs (so_key ob) = None then objs @ [ob]
      else map (\<lambda>x. if so_key x = so_key ob then ob else x) objs)"

definition responded :: "int \<Rightarrow> plain_resp" where
  "responded code = \<lparr>HTTPStatusCode = Some code\<rparr>"

definition mem_create_bucket :: "string \<Rightarrow> string \<Rightarrow> provider \<Rightarrow> (exn + plain_resp) \<times> provider" where
  "mem_create_bucket b loc s =
     (if length b < 3 \<or> 63 < length b then (Inl (ClientError ''InvalidBucketName''), s)
      else if map_of (store s) b \<noteq> None then (Inl (ClientError ''BucketAlreadyOwnedByYou''), s)
      else (Inr (responded 200), s\<lparr>store := store s @ [(b, [])]\<rparr>))"

definition mem_delete_bucket :: "string \<Rightarrow> provider \<Rightarrow> (exn + plain_resp) \<times> provider" where
  "mem_delete_bucket b s =
     (case map_of (store s) b of
        None \<Rightarrow> (Inl (ClientError ''NoSuchBucket''), s)
      | Some objs \<Rightarrow>
          (if objs \<noteq> [] then (Inl (ClientError ''BucketNotEmpty''), s)
           else (Inr (responded 204), s\<lparr>store := filter (\<lambda>entry. fst entry \<noteq> b) (store s)\<rparr>)))"

definition page_of :: "nat \<Rightarrow> token option \<Rightarrow> 'a list \<Rightarrow> 'a list \<times> token option" where
  "page_of n tok rows =
     (let off = (case tok of None \<Rightarrow> 0 | Some t \<Rightarrow> t)
      in (take n (drop off rows),
          if off + n < length rows then Some (off + n) else None))"

definition mem_list_buckets ::
  "list_buckets_req \<Rightarrow> provider \<Rightarrow> (exn + list_buckets_resp) \<times> provider" where
  "mem_list_buckets rq s =
     (let names = filter (\<lambda>n. case lb_Prefix rq of None \<Rightarrow> True | Some p \<Rightarrow> prefix p n)
                         (map fst (store s));
          n = (case lb_MaxBuckets rq of None \<Rightarrow> length names | Some m \<Rightarrow> min m (max_buckets s));
          (page, next) = page_of n (lb_ContinuationToken rq) names
      in (Inr \<lparr>HTTPStatusCode = Some 200,
                Buckets = map (\<lambda>n. \<lparr>Name = n, CreationDate = ''2024-01-01''\<rparr>) page,
                lb_NextToken = next\<rparr>, s))"

definition mem_head_bucket :: "string \<Rightarrow> provider \<Rightarrow> (exn + plain_resp) \<times> provider" where
  "mem_head_bucket b s =
     (case map_of (store s) b of
        None \<Rightarrow> (Inl (ClientError ''404''), s)
      | Some objs \<Rightarrow> (Inr (responded 200), s))"

definition mem_head_object ::
  "string \<Rightarrow> string \<Rightarrow> provider \<Rightarrow> (exn + head_object_resp) \<times> provider" where
  "mem_head_object b k s =
     (case lookup_object s b k of
        None \<Rightarrow> (Inl (ClientError ''404''), s)
      | Some ob \<Rightarrow>
          (Inr \<lparr>HTTPStatusCode = Some 200,
                 ContentLength = Some (int (length (so_body ob))),
                 ContentType = Some (so_content_type ob),
                 ho_ETag = Some (so_etag ob),
                 Metadata = Some (so_metadata ob)\<rparr>, s))"

text \<open>
  A copy writes the body of the source object under the destination key, with the metadata
  of the source (\<open>COPY\<close>) or of the request (\<open>REPLACE\<close>). The service refuses a copy of an
  object onto itself that changes nothing.
\<close>

definition mem_copy_object :: "copy_object_req \<Rightarrow> provider \<Rightarrow> (exn + plain_resp) \<times> provider" where
  "mem_copy_object rq s =
     (case map_of (store s) (CopySource_Bucket rq) of
        None \<Rightarrow> (Inl (ClientError ''NoSuchBucket''), s)
      | Some src_objs \<Rightarrow>
         (case find_object src_objs (CopySource_Key rq) of
            None \<Rightarrow> (Inl (ClientError ''NoSuchKey''), s)
          | Some src \<Rightarrow>
             (if map_of (store s) (co_Bucket rq) = None then (Inl (ClientError ''NoSuchBucket''), s)
              else if MetadataDirective rq = COPY \<and> co_Bucket rq = CopySource_Bucket rq
                        \<and> co_Key rq = CopySource_Key rq
                then (Inl (ClientError ''InvalidRequest''), s)
              else
                (let ob = src\<lparr>so_key := co_Key rq,
                              so_metadata := (case MetadataDirective rq of
                                                COPY \<Rightarrow> so_metadata src
                                              | REPLACE \<Rightarrow> co_Metadata rq)\<rparr>
                 in (Inr (responded 200),
                     s\<lparr>store := map (\<lambda>entry. if fst entry = co_Bucket rq
                                               then (fst entry, put_object ob (snd entry))
                                               else entry) (store s)\<rparr>)))))"

text \<open>
  A listing row is a key or, with a delimiter, the common prefix of the keys that contain the
  delimiter after the requested prefix. Rows keep the order of the keys; keys and common
  prefixes share the pages.
\<close>

datatype row = KeyRow content_entry | PrefixRow string

fun upto_delimiter :: "string \<Rightarrow> string \<Rightarrow> string option" where
  "upto_delimiter dl [] = None"
| "upto_delimiter dl (ch # rest) =
     (if prefix dl (ch # rest) then Some dl
      else map_option ((#) ch) (upto_delimiter dl rest))"

definition entry_of :: "stored_object \<Rightarrow> content_entry" where
  "entry_of ob = \<lparr>Key = so_key ob, Size = int (length (so_body ob)), ETag = so_etag ob\<rparr>"

definition row_of :: "string \<Rightarrow> string option \<Rightarrow> stored_object \<Rightarrow> row" where
  "row_of p dl ob =
     (case dl of
        None \<Rightarrow> KeyRow (entry_of ob)
      | Some d \<Rightarrow>
         (case upto_delimiter d (drop (length p) (so_key ob)) of
            None \<Rightarrow> KeyRow (entry_of ob)
          | Some u \<Rightarrow> PrefixRow (p @ u)))"

fun row_keys :: "row list \<Rightarrow> content_entry list" where
  "row_keys [] = []"
| "row_keys (KeyRow e # rs) = e # row_keys rs"
| "row_keys (PrefixRow q # rs) = row_keys rs"

fun row_prefixes :: "row list \<Rightarrow> string list" where
  "row_prefixes [] = []"
| "row_prefixes (KeyRow e # rs) = row_prefixes rs"
| "row_prefixes (PrefixRow q # rs) = q # row_prefixes rs"

definition mem_list_objects_v2 ::
  "list_objects_req \<Rightarrow> provider \<Rightarrow> (exn + list_objects_resp) \<times> provider" where
  "mem_list_objects_v2 rq s =
     (case map_of (store s) (lo_Bucket rq) of
        None \<Rightarrow> (Inl (ClientError ''NoSuchBucket''), s)
      | Some objs \<Rightarrow>
         (let p = (case lo_Prefix rq of None \<Rightarrow> [] | Some q \<Rightarrow> q);
              rows = remdups (map (row_of p (lo_Delimiter rq))
                                  (filter (\<lambda>ob. prefix p (so_key ob)) objs));
              (page, next) = page_of (max_keys s) (lo_ContinuationToken rq) rows
          in (Inr \<lparr>HTTPStatusCode = Some 200,
                    Contents = row_keys page,
                    CommonPrefixes = row_prefixes page,
                    IsTruncated = (next \<noteq> None),
                    NextContinuationToken = next\<rparr>, s)))"

definition mem_sdk :: "provider sdk" where
  "mem_sdk = \<lparr>create_bucket = mem_create_bucket,
              list_buckets = mem_list_buckets,
              delete_bucket = mem_delete_bucket,
              head_bucket = mem_head_bucket,
              head_object = mem_head_object,
              copy_object = mem_copy_object,
              list_objects_v2 = mem_list_objects_v2\<rparr>"

text \<open>
  A provider in front of which the listing answers an error status in a response instead of
  raising, as a gateway or a stubbed transport does; everything else is the in-memory
  provider.
\<close>

definition unavailable :: list_objects_resp where
  "unavailable = \<lparr>HTTPStatusCode = Some 503, Contents = [], CommonPrefixes = [],
                   IsTruncated = False, NextContinuationToken = None\<rparr>"

definition gateway_sdk :: "provider sdk" where
  "gateway_sdk = mem_sdk\<lparr>list_objects_v2 := \<lambda>rq s. (Inr unavailable, s)\<rparr>"

text \<open>
  A provider that answers \<^verbatim>\<open>head_object\<close> for one bucket only and reports a transport fault
  for every other bucket.
\<close>

definition heads_only :: "string \<Rightarrow> 's sdk \<Rightarrow> 's sdk" where
  "heads_only a sdk =
     sdk\<lparr>head_object := \<lambda>b k s. if b = a then head_object sdk b k s
                                   else (Inl EndpointConnectionError, s)\<rparr>"

subsection \<open>A populated provider\<close>

text \<open>
  Four buckets: \<open>photos\<close> with three objects, \<open>backup\<close> with an older object under a key
  that \<open>photos\<close> has too, \<open>docs\<close> with keys in two folders and one at the top, and the
  empty \<open>spare\<close>. The page sizes are the arguments. An entity tag is stored in double
  quotes, as the service sends it.
\<close>

definition quoted :: "string \<Rightarrow> string" where
  "quoted t = CHR 0x22 # t @ [CHR 0x22]"

definition stored :: "string \<Rightarrow> string \<Rightarrow> string \<Rightarrow> metadata_dict \<Rightarrow> stored_object" where
  "stored k body tag meta =
     \<lparr>so_key = k, so_body = body, so_etag = quoted tag, so_content_type = ''text/plain'',
      so_metadata = meta\<rparr>"

definition demo :: "nat \<Rightarrow> nat \<Rightarrow> provider" where
  "demo mk mb =
     \<lparr>store = [(''photos'', [stored ''cat'' ''meow'' ''c1'' [(''owner'', ''ann'')],
                             stored ''dog'' ''woof!'' ''d1'' [],
                             stored ''emu'' ''boom'' ''e1'' []]),
               (''backup'', [stored ''cat'' ''an older cat'' ''c0'' [(''owner'', ''bob'')]]),
               (''docs'', [stored ''a/x'' ''1'' ''t1'' [], stored ''b'' ''22'' ''t2'' [],
                           stored ''c/y'' ''333'' ''t3'' []]),
               (''spare'', [])],
      max_keys = mk, max_buckets = mb\<rparr>"

text \<open>The client of the examples, with \<open>photos\<close> selected.\<close>

definition cl :: s3client where
  "cl = use_container (init ''us-west-2'') ''photos''"

text \<open>
  What the listing of \<open>docs\<close> with the delimiter \<open>/\<close> returns.
\<close>

definition docs_listing :: "listing_entry option list" where
  "docs_listing = [Some (Object (ObjectInfo ''b'' (Some 2) (Some (quoted ''t2'')) None None)),
                   Some (Subdir (SubdirInfo ''a/'')), Some (Subdir (SubdirInfo ''c/''))]"

text \<open>
  The listing of \<open>backup\<close> with metadata, by the client that has \<open>photos\<close> selected: the
  size, hash and metadata are those of the object \<open>cat\<close> of \<open>photos\<close>.
\<close>

definition backup_fetched :: "listing_entry option list" where
  "backup_fetched =
     [Some (Object \<lparr>name = ''cat'', bytes = Some 4, hash = Some ''c1'',
                     content_type = Some ''text/plain'',
                     metadata = Some [(''owner'', ''ann'')]\<rparr>)]"

text \<open>
  The plain listings of \<open>backup\<close> and of \<open>docs\<close>: the size and the entity tag of each
  stored object.
\<close>

definition backup_plain :: "listing_entry option list" where
  "backup_plain =
     [Some (Object (ObjectInfo ''cat'' (Some 12) (Some (quoted ''c0'')) None None))]"

definition docs_plain :: "listing_entry option list" where
  "docs_plain =
     [Some (Object (ObjectInfo ''a/x'' (Some 1) (Some (quoted ''t1'')) None None)),
      Some (Object (ObjectInfo ''b'' (Some 2) (Some (quoted ''t2'')) None None)),
      Some (Object (ObjectInfo ''c/y'' (Some 3) (Some (quoted ''t3'')) None None))]"

section \<open>Vocabulary of the properties\<close>

definition is_subdir :: "listing_entry option \<Rightarrow> bool" where
  "is_subdir e = (case e of Some (Subdir d) \<Rightarrow> True | _ \<Rightarrow> False)"

definition is_object :: "listing_entry option \<Rightarrow> bool" where
  "is_object e = (case e of Some (Object ob) \<Rightarrow> True | _ \<Rightarrow> False)"

text \<open>The entries the source builds from a listing response, before any metadata request.\<close>

definition listed_objects :: "list_objects_resp \<Rightarrow> listing_entry option list" where
  "listed_objects res =
     map (\<lambda>ob. Some (Object (ObjectInfo (Key ob) (Some (Size ob)) (Some (ETag ob)) None None)))
         (Contents res)"

definition listed_subdirs :: "list_objects_resp \<Rightarrow> listing_entry option list" where
  "listed_subdirs res = map (\<lambda>q. Some (Subdir (SubdirInfo q))) (CommonPrefixes res)"

text \<open>
  What a stored object looks like in a plain listing, and in the answer of \<open>object_info_of\<close>.
\<close>

definition plain_info :: "stored_object \<Rightarrow> object_info" where
  "plain_info ob =
     ObjectInfo (so_key ob) (Some (int (length (so_body ob)))) (Some (so_etag ob)) None None"

definition full_info :: "stored_object \<Rightarrow> object_info" where
  "full_info ob =
     \<lparr>name = so_key ob, bytes = Some (int (length (so_body ob))),
      hash = Some (strip_quotes (so_etag ob)), content_type = Some (so_content_type ob),
      metadata = Some (so_metadata ob)\<rparr>"

text \<open>
  What the answer of a metadata request says of the object under the key \<open>k\<close>: its size,
  content type, hash and metadata when the status is 200 (a missing entity tag raises), and
  nothing otherwise.
\<close>

definition described_by :: "string \<Rightarrow> head_object_resp \<Rightarrow> exn + object_info option" where
  "described_by k r =
     (if HTTPStatusCode r = Some 200 then
        (case ho_ETag r of
           None \<Rightarrow> Inl AttributeError
         | Some t \<Rightarrow> Inr (Some \<lparr>name = k, bytes = ContentLength r, hash = Some (strip_quotes t),
                                 content_type = ContentType r, metadata = Metadata r\<rparr>))
      else Inr None)"

text \<open>
  The metadata requests for the keys \<open>ks\<close>, sent to the container \<open>a\<close> one after the other in
  the order of the keys, each on the state the one before has left; the first exception ends
  them.
\<close>

fun fetched_from ::
  "'s sdk \<Rightarrow> string \<Rightarrow> string list \<Rightarrow> 's \<Rightarrow> (exn + object_info option list) \<times> 's" where
  "fetched_from sdk a [] s = (Inr [], s)"
| "fetched_from sdk a (k # ks) s =
     (case head_object sdk a k s of
        (Inl e, s') \<Rightarrow> (Inl e, s')
      | (Inr r, s') \<Rightarrow>
          (case described_by k r of
             Inl e \<Rightarrow> (Inl e, s')
           | Inr v \<Rightarrow>
               (case fetched_from sdk a ks s' of
                  (Inl e, s'') \<Rightarrow> (Inl e, s'')
                | (Inr vs, s'') \<Rightarrow> (Inr (v # vs), s''))))"

section \<open>Properties\<close>

lemmas mem_defs = mem_sdk_def mem_create_bucket_def mem_delete_bucket_def mem_list_buckets_def
  mem_head_bucket_def mem_head_object_def mem_copy_object_def mem_list_objects_v2_def
  page_of_def row_of_def entry_of_def lookup_object_def find_object_def put_object_def
  responded_def

lemmas demo_defs = demo_def stored_def quoted_def cl_def use_container_def init_def

lemmas client_defs = list_request_def self_container_name_def truthy_def status_ok_def
  ObjectInfo_def SubdirInfo_def ContainerInfo_def strip_quotes_def

subsection \<open>Creating a container\<close>

text \<open>
  C1, as stated, fails: besides the container that already exists, a failure of another kind
  is collapsed into \<open>False\<close> too. On the populated provider the bucket \<open>photos\<close> exists and
  the name \<open>x\<close> is invalid; the provider raises two different errors and
  \<open>container_create\<close> returns the same \<open>False\<close> for both.
\<close>

theorem container_create_collapses_failures:
  "create_bucket mem_sdk ''photos'' (location cl) (demo 2 2)
     = (Inl (ClientError ''BucketAlreadyOwnedByYou''), demo 2 2)
   \<and> container_create mem_sdk cl ''photos'' (demo 2 2) = (False, demo 2 2)
   \<and> create_bucket mem_sdk ''x'' (location cl) (demo 2 2)
     = (Inl (ClientError ''InvalidBucketName''), demo 2 2)
   \<and> container_create mem_sdk cl ''x'' (demo 2 2) = (False, demo 2 2)"
  by (simp add: container_create_def mem_defs demo_defs)

text \<open>
  C1, amended: \<open>container_create\<close> never raises. It returns \<open>False\<close> exactly when the
  provider's create request raises an exception, whatever its kind (the container exists
  already, the name is invalid, the permission is denied, the network fails), and \<open>True\<close>
  otherwise; the provider is left as that one request left it.
\<close>

theorem container_create_false_iff_raises:
  "fst (container_create sdk c cname s) = (\<not> isl (fst (create_bucket sdk cname (location c) s)))
   \<and> snd (container_create sdk c cname s) = snd (create_bucket sdk cname (location c) s)"
  by (simp add: container_create_def split: prod.splits sum.splits)

subsection \<open>Deleting a container\<close>

text \<open>
  C2: deleting a container that does not exist should return \<open>True\<close>, as the docstring of
  \<^verbatim>\<open>container_delete\<close> says too. The provider has no bucket \<open>ghost\<close>; its delete request
  raises, the bare \<^verbatim>\<open>except\<close> catches that, and the method returns \<open>False\<close>.
\<close>

theorem container_delete_missing_returns_False:
  "map_of (store (demo 2 2)) ''ghost'' = None
   \<and> delete_bucket mem_sdk ''ghost'' (demo 2 2) = (Inl (ClientError ''NoSuchBucket''), demo 2 2)
   \<and> container_delete mem_sdk cl ''ghost'' False (demo 2 2) = (False, demo 2 2)"
  by (simp add: container_delete_def mem_defs demo_defs)

text \<open>
  C3, as stated, fails. The bucket \<open>photos\<close> holds three objects. With \<open>force\<close> set, the
  method returns \<open>False\<close> and the provider is unchanged: nothing was drained and the
  container is still there. Without \<open>force\<close> the outcome is the boolean \<open>False\<close>, the same
  as for the missing container \<open>ghost\<close>, and no error that names the cause.
\<close>

theorem container_delete_force_not_honoured:
  "map_option length (map_of (store (demo 2 2)) ''photos'') = Some 3
   \<and> container_delete mem_sdk cl ''photos'' True (demo 2 2) = (False, demo 2 2)
   \<and> container_delete mem_sdk cl ''photos'' False (demo 2 2) = (False, demo 2 2)
   \<and> container_delete mem_sdk cl ''ghost'' False (demo 2 2) = (False, demo 2 2)"
  by (simp add: container_delete_def mem_defs demo_defs)

text \<open>What the method makes of an exception of the delete request, for every SDK.\<close>

lemma container_delete_raise:
  "delete_bucket sdk cname s = (Inl e, s') \<Longrightarrow>
     container_delete sdk c cname force s = (False, s')"
  by (simp add: container_delete_def)

text \<open>
  C3, amended: for every container that holds at least one object, the provider refuses the
  deletion and \<open>container_delete\<close> without \<open>force\<close> returns \<open>False\<close>, with the container
  and its objects as they were.
\<close>

theorem container_delete_nonempty_unforced:
  assumes "map_of (store s) b = Some objs" and "objs \<noteq> []"
  shows "delete_bucket mem_sdk b s = (Inl (ClientError ''BucketNotEmpty''), s)
         \<and> container_delete mem_sdk c b False s = (False, s)"
proof -
  from assms have refused: "delete_bucket mem_sdk b s = (Inl (ClientError ''BucketNotEmpty''), s)"
    by (simp add: mem_sdk_def mem_delete_bucket_def)
  from refused container_delete_raise [OF refused] show ?thesis by simp
qed

theorem container_delete_nonempty_unforced_witness:
  "map_of (store (demo 2 2)) ''backup''
     = Some [stored ''cat'' ''an older cat'' ''c0'' [(''owner'', ''bob'')]]
   \<and> [stored ''cat'' ''an older cat'' ''c0'' [(''owner'', ''bob'')]] \<noteq> []
   \<and> delete_bucket mem_sdk ''backup'' (demo 2 2) = (Inl (ClientError ''BucketNotEmpty''), demo 2 2)
   \<and> container_delete mem_sdk cl ''backup'' False (demo 2 2) = (False, demo 2 2)"
proof -
  have bucket: "map_of (store (demo 2 2)) ''backup''
                  = Some [stored ''cat'' ''an older cat'' ''c0'' [(''owner'', ''bob'')]]"
    by (simp add: demo_defs)
  have some: "[stored ''cat'' ''an older cat'' ''c0'' [(''owner'', ''bob'')]] \<noteq> []" by simp
  show ?thesis
    by (rule conjI [OF bucket conjI [OF some container_delete_nonempty_unforced [OF bucket some]]])
qed

subsection \<open>Listing containers\<close>

text \<open>
  For every SDK the parameter \<open>prefix\<close> has no effect. On the in-memory provider the one
  request, sent without a page size, is answered with every bucket, so the listing is
  complete, whatever the prefix.
\<close>

lemma container_list_prefix_unused:
  "container_list sdk c pfx s = container_list sdk c None s"
  by (simp add: container_list_def)

lemma container_list_lists_all:
  "container_list mem_sdk c pfx s
     = (Inr (map (\<lambda>n. ContainerInfo n None None) (map fst (store s))), s)"
  by (simp add: container_list_def mem_sdk_def mem_list_buckets_def page_of_def o_def)

text \<open>
  C6: the listing should hold exactly the containers whose names start with the prefix. The
  provider has the buckets \<open>photos\<close>, \<open>backup\<close>, \<open>docs\<close> and \<open>spare\<close>, of which \<open>photos\<close>
  alone starts with \<open>ph\<close>; \<open>container_list\<close> with the prefix \<open>ph\<close> returns all four. The
  sibling \<open>object_list\<close> does pass its prefix on to the provider.
\<close>

theorem container_list_ignores_prefix:
  "map fst (store (demo 2 2)) = [''photos'', ''backup'', ''docs'', ''spare'']
   \<and> filter (prefix ''ph'') [''photos'', ''backup'', ''docs'', ''spare''] = [''photos'']
   \<and> container_list mem_sdk cl (Some ''ph'') (demo 2 2)
       = (Inr [ContainerInfo ''photos'' None None, ContainerInfo ''backup'' None None,
               ContainerInfo ''docs'' None None, ContainerInfo ''spare'' None None], demo 2 2)"
  by (simp add: container_list_lists_all demo_defs)

subsection \<open>Listing objects: the shape of the result\<close>

text \<open>Facts about \<open>object_info_of\<close>, the loop and the branches of \<open>object_list\<close>.\<close>

lemma object_info_of_name:
  "object_info_of sdk c k s = (Inr (Some info), s') \<Longrightarrow> name info = k"
  by (auto simp: object_info_of_def split: sum.splits prod.splits if_splits option.splits)

lemma fetch_loop_unfold:
  "fetch_loop sdk c i objects s =
     (if i < length objects then
        (case objects ! i of
           None \<Rightarrow> (Inl AttributeError, s)
         | Some ob \<Rightarrow>
            (case object_info_of sdk c (name ob) s of
               (Inl e, s') \<Rightarrow> (Inl e, s')
             | (Inr r, s') \<Rightarrow> fetch_loop sdk c (Suc i) (objects[i := r]) s'))
      else (Inr objects, s))"
  by (rule fetch_loop.simps)

lemma fetch_loop_done:
  "\<not> i < length objects \<Longrightarrow> fetch_loop sdk c i objects s = (Inr objects, s)"
  by (simp add: fetch_loop_unfold [of sdk c i objects s])

lemma fetch_loop_step:
  "i < length objects \<Longrightarrow>
     fetch_loop sdk c i objects s =
       (case objects ! i of
           None \<Rightarrow> (Inl AttributeError, s)
         | Some ob \<Rightarrow>
            (case object_info_of sdk c (name ob) s of
               (Inl e, s') \<Rightarrow> (Inl e, s')
             | (Inr r, s') \<Rightarrow> fetch_loop sdk c (Suc i) (objects[i := r]) s'))"
  by (simp add: fetch_loop_unfold [of sdk c i objects s])

lemma fetch_loop_inv:
  "fetch_loop sdk c i objs s = (Inr objs', s') \<Longrightarrow>
     length objs' = length objs
     \<and> (\<forall>j<i. j < length objs \<longrightarrow> objs' ! j = objs ! j)
     \<and> (\<forall>j. i \<le> j \<and> j < length objs \<longrightarrow>
           (\<exists>ob t t'. objs ! j = Some ob \<and> object_info_of sdk c (name ob) t = (Inr (objs' ! j), t')))"
proof (induction sdk c i objs s rule: fetch_loop.induct)
  case (1 sdk c i objects s)
  show ?case
  proof (cases "i < length objects")
    case False
    with "1.prems" show ?thesis by (auto simp: fetch_loop_unfold [of sdk c i objects s])
  next
    case True
    from True "1.prems" obtain ob where ob: "objects ! i = Some ob"
      by (cases "objects ! i") (simp_all add: fetch_loop_unfold [of sdk c i objects s])
    from True ob "1.prems" obtain r s1 where
      info: "object_info_of sdk c (name ob) s = (Inr r, s1)"
      and rest: "fetch_loop sdk c (Suc i) (objects[i := r]) s1 = (Inr objs', s')"
      by (cases "object_info_of sdk c (name ob) s" rule: prod.exhaust [case_names Pair])
         (auto simp: fetch_loop_unfold [of sdk c i objects s] split: sum.splits)
    from "1.IH" [OF True ob info [symmetric] refl rest]
    have len: "length objs' = length objects"
      and before: "\<forall>j<Suc i. j < length objects \<longrightarrow> objs' ! j = (objects[i := r]) ! j"
      and after: "\<forall>j. Suc i \<le> j \<and> j < length objects \<longrightarrow>
           (\<exists>ob t t'. (objects[i := r]) ! j = Some ob
                       \<and> object_info_of sdk c (name ob) t = (Inr (objs' ! j), t'))"
      by simp_all
    have here: "objs' ! i = r" using before True by simp
    show ?thesis
    proof (intro conjI allI impI)
      show "length objs' = length objects" by (rule len)
    next
      fix j assume "j < i" "j < length objects"
      then show "objs' ! j = objects ! j" using before by simp
    next
      fix j assume j: "i \<le> j \<and> j < length objects"
      show "\<exists>ob t t'. objects ! j = Some ob \<and> object_info_of sdk c (name ob) t = (Inr (objs' ! j), t')"
      proof (cases "j = i")
        case True
        then show ?thesis using ob info here by blast
      next
        case False
        with j have "Suc i \<le> j \<and> j < length objects" by simp
        with after False show ?thesis by auto
      qed
    qed
  qed
qed

lemma object_list_plain:
  assumes "list_request c p d cn = Inr rq" "list_objects_v2 sdk rq s = (Inr res, s1)"
    "status_ok (HTTPStatusCode res)"
  shows "object_list sdk c False p d cn s = (Inr (listed_objects res @ listed_subdirs res), s1)"
  using assms by (simp add: object_list_def listed_objects_def listed_subdirs_def o_def)

lemma object_list_fetched:
  assumes "list_request c p d cn = Inr rq" "list_objects_v2 sdk rq s = (Inr res, s1)"
    "status_ok (HTTPStatusCode res)"
    "object_list sdk c True p d cn s = (Inr es, s2)"
  shows "\<exists>objs'. fetch_loop sdk c 0
                    (map (\<lambda>ob. Some (ObjectInfo (Key ob) (Some (Size ob)) (Some (ETag ob)) None None))
                         (Contents res)) s1 = (Inr objs', s2)
                 \<and> es = map (map_option Object) objs' @ listed_subdirs res"
  using assms
  by (auto simp: object_list_def listed_subdirs_def Let_def split: prod.splits sum.splits)

lemma object_list_returns_cases:
  assumes "object_list sdk c fm p d cn s = (Inr es, s2)"
  obtains rq res s1 where "list_request c p d cn = Inr rq"
    "list_objects_v2 sdk rq s = (Inr res, s1)"
  using assms
  by (auto simp: object_list_def split: prod.splits sum.splits)

lemma object_list_not_ok:
  assumes "list_request c p d cn = Inr rq" "list_objects_v2 sdk rq s = (Inr res, s1)"
    "\<not> status_ok (HTTPStatusCode res)"
  shows "object_list sdk c fm p d cn s = (Inr [], s1)"
  using assms by (simp add: object_list_def)

lemma object_list_shape:
  assumes "object_list sdk c fm p d cn s = (Inr es, s')"
  shows "\<exists>xs ys. es = map (map_option Object) xs @ map (\<lambda>q. Some (Subdir (SubdirInfo q))) ys"
proof -
  from assms obtain rq res s1 where rq: "list_request c p d cn = Inr rq"
    and res: "list_objects_v2 sdk rq s = (Inr res, s1)"
    by (rule object_list_returns_cases)
  show ?thesis
  proof (cases "status_ok (HTTPStatusCode res)")
    case False
    from object_list_not_ok [OF rq res False, of fm] assms have "es = []" by simp
    then have "es = map (map_option Object) [] @ map (\<lambda>q. Some (Subdir (SubdirInfo q))) []"
      by simp
    then show ?thesis by blast
  next
    case True
    show ?thesis
    proof (cases fm)
      case True
      with assms have "object_list sdk c True p d cn s = (Inr es, s')" by simp
      from object_list_fetched [OF rq res \<open>status_ok (HTTPStatusCode res)\<close> this]
      show ?thesis unfolding listed_subdirs_def by blast
    next
      case False
      with assms object_list_plain [OF rq res True]
      have "es = map (map_option Object)
                   (map (\<lambda>ob. Some (ObjectInfo (Key ob) (Some (Size ob)) (Some (ETag ob)) None None))
                        (Contents res))
                 @ map (\<lambda>q. Some (Subdir (SubdirInfo q))) (CommonPrefixes res)"
        by (simp add: listed_objects_def listed_subdirs_def o_def)
      then show ?thesis by blast
    qed
  qed
qed

subsection \<open>Objects before subdirectories\<close>

text \<open>
  C10: in every sequence \<open>object_list\<close> returns, every object entry stands before every
  subdirectory entry. In the witness the provider's rows are \<open>a/\<close>, \<open>b\<close>, \<open>c/\<close> in key order,
  and the result lists \<open>b\<close> first.
\<close>

theorem object_list_objects_before_subdirs:
  assumes "object_list sdk c fm p d cn s = (Inr es, s')"
  shows "\<forall>i j. i < length es \<and> j < length es \<and> is_object (es ! i) \<and> is_subdir (es ! j)
                 \<longrightarrow> i < j"
proof (intro allI impI)
  fix i j
  assume a: "i < length es \<and> j < length es \<and> is_object (es ! i) \<and> is_subdir (es ! j)"
  from object_list_shape [OF assms] obtain xs ys where
    es: "es = map (map_option Object) xs @ map (\<lambda>q. Some (Subdir (SubdirInfo q))) ys"
    by blast
  have i: "i < length xs"
  proof (rule ccontr)
    assume n: "\<not> i < length xs"
    with a have "i - length xs < length ys" by (auto simp: es)
    with n have "is_subdir (es ! i)" by (simp add: es nth_append is_subdir_def)
    with a show False by (auto simp: is_subdir_def is_object_def split: option.splits listing_entry.splits)
  qed
  have j: "length xs \<le> j"
  proof (rule ccontr)
    assume "\<not> length xs \<le> j"
    then have "j < length xs" by simp
    then have "\<not> is_subdir (es ! j)"
      by (cases "xs ! j") (simp_all add: es nth_append is_subdir_def)
    with a show False by simp
  qed
  from i j show "i < j" by simp
qed

theorem object_list_objects_before_subdirs_witness:
  "list_objects_v2 mem_sdk \<lparr>lo_Bucket = ''docs'', lo_Prefix = None, lo_Delimiter = Some ''/'',
                         lo_ContinuationToken = None\<rparr> (demo 5 5)
     = (Inr \<lparr>HTTPStatusCode = Some 200,
              Contents = [\<lparr>Key = ''b'', Size = 2, ETag = quoted ''t2''\<rparr>],
              CommonPrefixes = [''a/'', ''c/''],
              IsTruncated = False, NextContinuationToken = None\<rparr>, demo 5 5)
   \<and> object_list mem_sdk cl False None (Some ''/'') (Some ''docs'') (demo 5 5)
     = (Inr docs_listing, demo 5 5)
   \<and> 0 < length docs_listing \<and> 1 < length docs_listing
   \<and> is_object (docs_listing ! 0) \<and> is_subdir (docs_listing ! 1)
   \<and> (0::nat) < 1"
proof -
  have r: "list_objects_v2 mem_sdk \<lparr>lo_Bucket = ''docs'', lo_Prefix = None, lo_Delimiter = Some ''/'',
                         lo_ContinuationToken = None\<rparr> (demo 5 5)
     = (Inr \<lparr>HTTPStatusCode = Some 200,
              Contents = [\<lparr>Key = ''b'', Size = 2, ETag = quoted ''t2''\<rparr>],
              CommonPrefixes = [''a/'', ''c/''],
              IsTruncated = False, NextContinuationToken = None\<rparr>, demo 5 5)"
    by (simp add: mem_defs demo_defs)
  have h: "object_list mem_sdk cl False None (Some ''/'') (Some ''docs'') (demo 5 5)
     = (Inr docs_listing, demo 5 5)"
    by (simp add: object_list_def docs_listing_def client_defs mem_defs demo_defs)
  have at: "0 < length docs_listing \<and> 1 < length docs_listing
              \<and> is_object (docs_listing ! 0) \<and> is_subdir (docs_listing ! 1)"
    by (simp add: docs_listing_def is_object_def is_subdir_def)
  from object_list_objects_before_subdirs [OF h, rule_format, OF at]
  have "(0::nat) < 1" .
  with r h at show ?thesis by blast
qed

subsection \<open>A listing that stops at the first page\<close>

text \<open>
  C4, as stated, fails: pagination is not followed. The bucket \<open>photos\<close> holds three objects
  and the provider serves two keys per page; \<open>object_list\<close> returns two entries.
\<close>

theorem object_list_stops_at_first_page:
  "map_option (map so_key) (map_of (store (demo 2 2)) ''photos'') = Some [''cat'', ''dog'', ''emu'']
   \<and> max_keys (demo 2 2) = 2
   \<and> object_list mem_sdk cl False None None (Some ''photos'') (demo 2 2)
      = (Inr [Some (Object (ObjectInfo ''cat'' (Some 4) (Some (quoted ''c1'')) None None)),
              Some (Object (ObjectInfo ''dog'' (Some 5) (Some (quoted ''d1'')) None None))],
         demo 2 2)"
  by (simp add: object_list_def client_defs mem_defs demo_defs)

text \<open>
  For every SDK: one listing request, without a continuation token, and one entry for each
  object and each common prefix of its response, with or without metadata.
\<close>

lemma object_list_one_request_one_page:
  assumes "list_request c p d cn = Inr rq"
    and "list_objects_v2 sdk rq s = (Inr res, s1)"
    and "HTTPStatusCode res = Some 200"
    and "object_list sdk c fm p d cn s = (Inr es, s2)"
  shows "lo_ContinuationToken rq = None
         \<and> length es = length (Contents res) + length (CommonPrefixes res)
         \<and> (\<not> fm \<longrightarrow> es = listed_objects res @ listed_subdirs res \<and> s2 = s1)"
proof -
  from assms(3) have ok: "status_ok (HTTPStatusCode res)" by (simp add: status_ok_def)
  from assms(1) have tok: "lo_ContinuationToken rq = None"
    by (auto simp: list_request_def split: sum.splits)
  have plain: "es = listed_objects res @ listed_subdirs res \<and> s2 = s1" if "\<not> fm"
    using that assms(4) object_list_plain [OF assms(1,2) ok] by simp
  have len: "length es = length (Contents res) + length (CommonPrefixes res)"
  proof (cases fm)
    case False
    with plain show ?thesis by (simp add: listed_objects_def listed_subdirs_def)
  next
    case True
    with assms(4) have "object_list sdk c True p d cn s = (Inr es, s2)" by simp
    from object_list_fetched [OF assms(1,2) ok this] obtain objs' where
      loop: "fetch_loop sdk c 0
               (map (\<lambda>ob. Some (ObjectInfo (Key ob) (Some (Size ob)) (Some (ETag ob)) None None))
                    (Contents res)) s1 = (Inr objs', s2)"
      and es: "es = map (map_option Object) objs' @ listed_subdirs res" by blast
    from fetch_loop_inv [OF loop] have "length objs' = length (Contents res)" by simp
    with es show ?thesis by (simp add: listed_subdirs_def)
  qed
  from tok len plain show ?thesis by blast
qed

text \<open>The first page of keys of the in-memory provider, for a request without prefix.\<close>

lemma row_keys_map: "row_keys (map (\<lambda>ob. KeyRow (f ob)) xs) = map f xs"
  by (induction xs) simp_all

lemma row_prefixes_map: "row_prefixes (map (\<lambda>ob. KeyRow (f ob)) xs) = []"
  by (induction xs) simp_all

lemma distinct_key_rows:
  "distinct (map so_key objs) \<Longrightarrow> distinct (map (\<lambda>ob. KeyRow (entry_of ob)) objs)"
proof (induction objs)
  case Nil
  then show ?case by simp
next
  case (Cons ob objs)
  have "KeyRow (entry_of ob) \<notin> (\<lambda>x. KeyRow (entry_of x)) ` set objs"
  proof
    assume "KeyRow (entry_of ob) \<in> (\<lambda>x. KeyRow (entry_of x)) ` set objs"
    then obtain x where "x \<in> set objs" and "entry_of ob = entry_of x" by auto
    then have "so_key ob \<in> so_key ` set objs" by (auto simp: entry_of_def)
    with Cons.prems show False by simp
  qed
  with Cons show ?case by simp
qed

lemma mem_list_objects_first_page:
  assumes "map_of (store s) b = Some objs" and "distinct (map so_key objs)"
  shows "list_objects_v2 mem_sdk
           \<lparr>lo_Bucket = b, lo_Prefix = None, lo_Delimiter = None, lo_ContinuationToken = None\<rparr> s
         = (Inr \<lparr>HTTPStatusCode = Some 200,
                 Contents = map entry_of (take (max_keys s) objs),
                 CommonPrefixes = [],
                 IsTruncated = (max_keys s < length objs),
                 NextContinuationToken = (if max_keys s < length objs
                                          then Some (max_keys s) else None)\<rparr>, s)"
proof -
  have fn: "row_of [] None = (\<lambda>ob. KeyRow (entry_of ob))"
    by (rule ext) (simp add: row_of_def entry_of_def)
  have rows: "remdups (map (row_of [] None) objs) = map (\<lambda>ob. KeyRow (entry_of ob)) objs"
    unfolding fn by (rule distinct_remdups_id [OF distinct_key_rows [OF assms(2)]])
  have tk: "take n (map (\<lambda>ob. KeyRow (entry_of ob)) objs)
              = map (\<lambda>ob. KeyRow (entry_of ob)) (take n objs)" for n
    by (simp add: take_map)
  show ?thesis
    using assms(1)
    by (simp add: mem_sdk_def mem_list_objects_v2_def page_of_def rows tk
          row_keys_map row_prefixes_map)
qed

text \<open>
  C4, amended: for a container with N objects, \<open>object_list\<close> without prefix, delimiter and
  metadata returns the objects of the provider's first page, in the provider's order: the
  first \<open>max_keys\<close> objects, hence all N, each once, exactly when N does not exceed the page
  size. The provider's state is unchanged.
\<close>

theorem object_list_returns_first_page:
  assumes "map_of (store s) b = Some objs" and "distinct (map so_key objs)"
  shows "object_list mem_sdk c False None None (Some b) s
           = (Inr (map (\<lambda>ob. Some (Object (ObjectInfo (so_key ob) (Some (int (length (so_body ob))))
                                                     (Some (so_etag ob)) None None)))
                       (take (max_keys s) objs)), s)"
proof -
  have rq: "list_request c None None (Some b)
              = Inr \<lparr>lo_Bucket = b, lo_Prefix = None, lo_Delimiter = None,
                     lo_ContinuationToken = None\<rparr>"
    by (simp add: list_request_def truthy_def)
  from object_list_plain [OF rq mem_list_objects_first_page [OF assms]]
  show ?thesis
    by (simp add: status_ok_def listed_objects_def listed_subdirs_def entry_of_def o_def)
qed

theorem object_list_returns_first_page_witness:
  "map_of (store (demo 5 2)) ''photos''
     = Some [stored ''cat'' ''meow'' ''c1'' [(''owner'', ''ann'')],
             stored ''dog'' ''woof!'' ''d1'' [], stored ''emu'' ''boom'' ''e1'' []]
   \<and> distinct (map so_key [stored ''cat'' ''meow'' ''c1'' [(''owner'', ''ann'')],
                             stored ''dog'' ''woof!'' ''d1'' [], stored ''emu'' ''boom'' ''e1'' []])
   \<and> object_list mem_sdk cl False None None (Some ''photos'') (demo 5 2)
       = (Inr [Some (Object (ObjectInfo ''cat'' (Some 4) (Some (quoted ''c1'')) None None)),
               Some (Object (ObjectInfo ''dog'' (Some 5) (Some (quoted ''d1'')) None None)),
               Some (Object (ObjectInfo ''emu'' (Some 4) (Some (quoted ''e1'')) None None))],
          demo 5 2)"
proof -
  have bucket: "map_of (store (demo 5 2)) ''photos''
     = Some [stored ''cat'' ''meow'' ''c1'' [(''owner'', ''ann'')],
             stored ''dog'' ''woof!'' ''d1'' [], stored ''emu'' ''boom'' ''e1'' []]"
    by (simp add: demo_defs)
  have keys: "distinct (map so_key [stored ''cat'' ''meow'' ''c1'' [(''owner'', ''ann'')],
                             stored ''dog'' ''woof!'' ''d1'' [], stored ''emu'' ''boom'' ''e1'' []])"
    by (simp add: stored_def)
  from object_list_returns_first_page [OF bucket keys, of cl]
  have "object_list mem_sdk cl False None None (Some ''photos'') (demo 5 2)
       = (Inr [Some (Object (ObjectInfo ''cat'' (Some 4) (Some (quoted ''c1'')) None None)),
               Some (Object (ObjectInfo ''dog'' (Some 5) (Some (quoted ''d1'')) None None)),
               Some (Object (ObjectInfo ''emu'' (Some 4) (Some (quoted ''e1'')) None None))],
          demo 5 2)"
    by (simp add: demo_def stored_def)
  with bucket keys show ?thesis by blast
qed

subsection \<open>Listing the selected container with metadata\<close>

text \<open>
  On the in-memory provider, the listing with metadata of the selected container returns, for
  each object of the first page and in the order of the page, the size, hash, content type
  and metadata of that very object.
\<close>

lemma find_object_member:
  "distinct (map so_key objs) \<Longrightarrow> ob \<in> set objs \<Longrightarrow> find_object objs (so_key ob) = Some ob"
  by (induction objs) (auto simp: find_object_def)

lemma object_info_of_stored:
  assumes "container_name c = Some b" and "map_of (store s) b = Some objs"
    and "distinct (map so_key objs)" and "ob \<in> set objs"
  shows "object_info_of mem_sdk c (so_key ob) s = (Inr (Some (full_info ob)), s)"
  using assms(1,2) find_object_member [OF assms(3,4)]
  by (simp add: object_info_of_def self_container_name_def mem_sdk_def mem_head_object_def
        lookup_object_def status_ok_def full_info_def)

lemma update_at_boundary:
  assumes "i < length xs"
  shows "(map f (take i xs) @ map g (drop i xs))[i := f (xs ! i)]
           = map f (take (Suc i) xs) @ map g (drop (Suc i) xs)"
proof -
  from assms have d: "drop i xs = xs ! i # drop (Suc i) xs" by (simp add: Cons_nth_drop_Suc)
  from assms have t: "take (Suc i) xs = take i xs @ [xs ! i]" by (simp add: take_Suc_conv_app_nth)
  from assms have l: "length (map f (take i xs)) = i" by simp
  show ?thesis unfolding d t using l by (simp add: list_update_append)
qed

lemma fetch_loop_on_store:
  assumes "container_name c = Some b" and "map_of (store s) b = Some objs"
    and "distinct (map so_key objs)" and "set xs \<subseteq> set objs"
  shows "i \<le> length xs \<Longrightarrow>
     fetch_loop mem_sdk c i
        (map (\<lambda>ob. Some (full_info ob)) (take i xs) @ map (\<lambda>ob. Some (plain_info ob)) (drop i xs)) s
       = (Inr (map (\<lambda>ob. Some (full_info ob)) xs), s)"
proof (induction "length xs - i" arbitrary: i)
  case 0
  then have "i = length xs" by simp
  then show ?case by (simp add: fetch_loop_done)
next
  case (Suc n)
  then have i: "i < length xs" by simp
  let ?cur = "map (\<lambda>ob. Some (full_info ob)) (take i xs) @ map (\<lambda>ob. Some (plain_info ob)) (drop i xs)"
  have at: "?cur ! i = Some (plain_info (xs ! i))"
    using i by (simp add: nth_append)
  have nm: "name (plain_info (xs ! i)) = so_key (xs ! i)"
    by (simp add: plain_info_def ObjectInfo_def)
  from i assms(4) have "xs ! i \<in> set objs" by auto
  from object_info_of_stored [OF assms(1,2,3) this]
  have info: "object_info_of mem_sdk c (so_key (xs ! i)) s = (Inr (Some (full_info (xs ! i))), s)" .
  have len: "i < length ?cur" using i by simp
  have step: "fetch_loop mem_sdk c i ?cur s
                = fetch_loop mem_sdk c (Suc i) (?cur[i := Some (full_info (xs ! i))]) s"
    by (simp only: fetch_loop_step [OF len] at nm info option.case prod.case sum.case)
  have upd: "?cur[i := Some (full_info (xs ! i))]
               = map (\<lambda>ob. Some (full_info ob)) (take (Suc i) xs)
                 @ map (\<lambda>ob. Some (plain_info ob)) (drop (Suc i) xs)"
    by (rule update_at_boundary [OF i])
  from Suc.hyps(2) i have "n = length xs - Suc i" by simp
  from Suc.hyps(1) [OF this] i
  have "fetch_loop mem_sdk c (Suc i)
          (map (\<lambda>ob. Some (full_info ob)) (take (Suc i) xs)
           @ map (\<lambda>ob. Some (plain_info ob)) (drop (Suc i) xs)) s
        = (Inr (map (\<lambda>ob. Some (full_info ob)) xs), s)" by simp
  with step upd show ?case by simp
qed

lemma object_list_with_metadata_on_selected:
  assumes "container_name c = Some b" and "map_of (store s) b = Some objs"
    and "distinct (map so_key objs)"
  shows "object_list mem_sdk c True None None None s
           = (Inr (map (\<lambda>ob. Some (Object (full_info ob))) (take (max_keys s) objs)), s)"
proof -
  let ?xs = "take (max_keys s) objs"
  have rq: "list_request c None None None
              = Inr \<lparr>lo_Bucket = b, lo_Prefix = None, lo_Delimiter = None,
                     lo_ContinuationToken = None\<rparr>"
    using assms(1) by (simp add: list_request_def self_container_name_def truthy_def)
  have sub: "set ?xs \<subseteq> set objs" by (rule set_take_subset)
  from fetch_loop_on_store [OF assms sub, of 0]
  have loop: "fetch_loop mem_sdk c 0 (map (\<lambda>ob. Some (plain_info ob)) ?xs) s
                = (Inr (map (\<lambda>ob. Some (full_info ob)) ?xs), s)" by simp
  show ?thesis
    using loop
    by (simp add: object_list_def rq mem_list_objects_first_page [OF assms(2,3)] status_ok_def
          plain_info_def entry_of_def o_def)
qed

subsection \<open>A failed listing\<close>

text \<open>
  C9: when the listing response carries a status other than 200, \<open>object_list\<close> returns the
  empty list and raises nothing; a provider that answers the same request with status 200
  and no rows, as for an empty container, gives the very same result.
\<close>

theorem object_list_failed_listing_looks_empty:
  assumes "list_request c p d cn = Inr rq"
    and "list_objects_v2 sdk rq s = (Inr res, s1)"
    and "HTTPStatusCode res \<noteq> Some 200"
    and "list_objects_v2 sdk0 rq s = (Inr res0, s1)"
    and "HTTPStatusCode res0 = Some 200"
    and "Contents res0 = []" and "CommonPrefixes res0 = []"
  shows "object_list sdk c fm p d cn s = (Inr [], s1)
         \<and> object_list sdk0 c fm p d cn s = object_list sdk c fm p d cn s"
proof -
  from assms(3) have "\<not> status_ok (HTTPStatusCode res)" by (simp add: status_ok_def)
  from object_list_not_ok [OF assms(1,2) this]
  have failed: "object_list sdk c fm p d cn s = (Inr [], s1)" .
  have "object_list sdk0 c fm p d cn s = (Inr [], s1)"
    using assms(1,4,5,6,7)
    by (simp add: object_list_def status_ok_def fetch_loop_done)
  with failed show ?thesis by simp
qed

theorem object_list_failed_listing_looks_empty_witness:
  "list_request cl None None (Some ''spare'')
     = Inr \<lparr>lo_Bucket = ''spare'', lo_Prefix = None, lo_Delimiter = None,
            lo_ContinuationToken = None\<rparr>
   \<and> list_objects_v2 gateway_sdk \<lparr>lo_Bucket = ''spare'', lo_Prefix = None, lo_Delimiter = None,
            lo_ContinuationToken = None\<rparr> (demo 2 2) = (Inr unavailable, demo 2 2)
   \<and> HTTPStatusCode unavailable = Some 503
   \<and> map_of (store (demo 2 2)) ''spare'' = Some []
   \<and> object_list gateway_sdk cl True None None (Some ''spare'') (demo 2 2) = (Inr [], demo 2 2)
   \<and> object_list mem_sdk cl True None None (Some ''spare'') (demo 2 2)
       = object_list gateway_sdk cl True None None (Some ''spare'') (demo 2 2)"
proof -
  let ?rq = "\<lparr>lo_Bucket = ''spare'', lo_Prefix = None, lo_Delimiter = None,
              lo_ContinuationToken = None\<rparr>"
  let ?empty = "\<lparr>HTTPStatusCode = Some 200, Contents = [], CommonPrefixes = [],
                 IsTruncated = False, NextContinuationToken = None\<rparr>"
  have rq: "list_request cl None None (Some ''spare'') = Inr ?rq"
    by (simp add: client_defs)
  have g: "list_objects_v2 gateway_sdk ?rq (demo 2 2) = (Inr unavailable, demo 2 2)"
    by (simp add: gateway_sdk_def)
  have st: "HTTPStatusCode unavailable = Some 503" by (simp add: unavailable_def)
  then have bad: "HTTPStatusCode unavailable \<noteq> Some 200" by simp
  have sp: "map_of (store (demo 2 2)) ''spare'' = Some []" by (simp add: demo_defs)
  have m: "list_objects_v2 mem_sdk ?rq (demo 2 2) = (Inr ?empty, demo 2 2)"
    by (simp add: mem_defs demo_defs)
  from object_list_failed_listing_looks_empty [OF rq g bad m, of True]
  have "object_list gateway_sdk cl True None None (Some ''spare'') (demo 2 2) = (Inr [], demo 2 2)
         \<and> object_list mem_sdk cl True None None (Some ''spare'') (demo 2 2)
             = object_list gateway_sdk cl True None None (Some ''spare'') (demo 2 2)"
    by simp
  with rq g st sp show ?thesis by blast
qed

subsection \<open>The container of the metadata requests\<close>

text \<open>
  \<open>object_info_of\<close> is one \<^verbatim>\<open>head_object\<close> request on the selected container, and the loop
  is these requests for the listed keys, in their order.
\<close>

lemma object_info_of_described:
  assumes "container_name c = Some a"
  shows "object_info_of sdk c k s =
           (case head_object sdk a k s of
              (Inl e, s') \<Rightarrow> (Inl e, s')
            | (Inr r, s') \<Rightarrow>
                (case described_by k r of Inl e \<Rightarrow> (Inl e, s') | Inr v \<Rightarrow> (Inr v, s')))"
  using assms
  by (simp add: object_info_of_def self_container_name_def described_by_def status_ok_def
        split: prod.splits sum.splits option.splits)

lemma fetch_loop_as_requests:
  "container_name c = Some a \<Longrightarrow>
   fetch_loop sdk c (length pre) (pre @ map Some obs) s
     = (case fetched_from sdk a (map name obs) s of
          (Inl e, s') \<Rightarrow> (Inl e, s')
        | (Inr vs, s') \<Rightarrow> (Inr (pre @ vs), s'))"
proof (induction obs arbitrary: pre s)
  case Nil
  then show ?case by (simp add: fetch_loop_done)
next
  case (Cons ob obs)
  let ?objs = "pre @ Some ob # map Some obs"
  have len: "length pre < length ?objs" by simp
  have at: "?objs ! length pre = Some ob" by (simp add: nth_append)
  note info = object_info_of_described [OF Cons.prems, of sdk "name ob" s]
  show ?case
  proof (cases "head_object sdk a (name ob) s")
    case (Pair x s1)
    show ?thesis
    proof (cases x)
      case (Inl e)
      with Pair info have "object_info_of sdk c (name ob) s = (Inl e, s1)" by simp
      with Pair Inl show ?thesis by (simp add: fetch_loop_step [OF len] at)
    next
      case (Inr r)
      show ?thesis
      proof (cases "described_by (name ob) r")
        case (Inl e)
        with Pair Inr info have "object_info_of sdk c (name ob) s = (Inl e, s1)" by simp
        with Pair Inr Inl show ?thesis by (simp add: fetch_loop_step [OF len] at)
      next
        case v: (Inr v)
        with Pair Inr info have i: "object_info_of sdk c (name ob) s = (Inr v, s1)" by simp
        have upd: "?objs[length pre := v] = pre @ v # map Some obs"
          by simp
        have step: "fetch_loop sdk c (length pre) ?objs s
                      = fetch_loop sdk c (Suc (length pre)) (pre @ v # map Some obs) s1"
          by (simp add: fetch_loop_step [OF len] at i upd)
        from Cons.IH [OF Cons.prems, of "pre @ [v]" s1]
        have "fetch_loop sdk c (Suc (length pre)) (pre @ v # map Some obs) s1
                = (case fetched_from sdk a (map name obs) s1 of
                     (Inl e, s') \<Rightarrow> (Inl e, s')
                   | (Inr vs, s') \<Rightarrow> (Inr (pre @ v # vs), s'))"
          by (simp split: prod.splits sum.splits)
        with step Pair Inr v show ?thesis
          by (simp split: prod.splits sum.splits)
      qed
    qed
  qed
qed

text \<open>
  The result of the listing with metadata depends on the provider's answers to
  \<^verbatim>\<open>head_object\<close> for the selected container alone.
\<close>

lemma object_info_of_cong_sdk:
  assumes "container_name c = Some a"
    and "\<forall>k t. head_object sdk' a k t = head_object sdk a k t"
  shows "object_info_of sdk' c k s = object_info_of sdk c k s"
  using assms by (simp add: object_info_of_def self_container_name_def)

lemma fetch_loop_cong_sdk:
  "container_name c = Some a \<Longrightarrow>
   \<forall>k t. head_object sdk' a k t = head_object sdk a k t \<Longrightarrow>
   fetch_loop sdk' c i objs s = fetch_loop sdk c i objs s"
proof (induction sdk c i objs s rule: fetch_loop.induct)
  case (1 sdk c i objects s)
  note same = object_info_of_cong_sdk [OF "1.prems"]
  show ?case
  proof (cases "i < length objects")
    case False
    then show ?thesis by (simp add: fetch_loop_done)
  next
    case True
    show ?thesis
    proof (cases "objects ! i")
      case None
      with True show ?thesis by (simp add: fetch_loop_step)
    next
      case (Some ob)
      show ?thesis
      proof (cases "object_info_of sdk c (name ob) s")
        case (Pair r s1)
        show ?thesis
        proof (cases r)
          case (Inl e)
          with True Some Pair same show ?thesis by (simp add: fetch_loop_step)
        next
          case (Inr v)
          from "1.IH" [OF True Some Pair [symmetric] Inr "1.prems"]
          have "fetch_loop sdk' c (Suc i) (objects[i := v]) s1
                  = fetch_loop sdk c (Suc i) (objects[i := v]) s1" .
          with True Some Pair Inr same show ?thesis by (simp add: fetch_loop_step)
        qed
      qed
    qed
  qed
qed

lemma object_list_cong_sdk:
  assumes "container_name c = Some a"
    and "list_objects_v2 sdk' = list_objects_v2 sdk"
    and "\<forall>k t. head_object sdk' a k t = head_object sdk a k t"
  shows "object_list sdk' c True p d cn s = object_list sdk c True p d cn s"
proof -
  have loop: "\<And>i objs t. fetch_loop sdk' c i objs t = fetch_loop sdk c i objs t"
    by (rule fetch_loop_cong_sdk [OF assms(1,3)])
  show ?thesis
    unfolding object_list_def assms(2) loop by (rule refl)
qed

text \<open>
  C8: \<open>object_info_of\<close> reads the selected container of the client, so the listing with
  metadata of any container sends its metadata requests to the selected one. For a client
  with the container \<open>a\<close> selected, whatever container \<open>cn\<close> is named in the call: the listing
  request goes to \<open>cn\<close> (to \<open>a\<close> when none is named), and when it is answered with status 200
  the result of \<open>object_list\<close> with metadata is what the \<^verbatim>\<open>head_object\<close> requests on \<open>a\<close>
  for the listed keys give, in the order of the listing, followed by the subdirectories; an
  exception of a request is the exception of the call. In the witness \<open>photos\<close> is selected
  and \<open>backup\<close> is listed, on a provider that refuses every \<^verbatim>\<open>head_object\<close> on \<open>backup\<close>: the
  entry returned for the key \<open>cat\<close> of \<open>backup\<close> describes the object \<open>cat\<close> of \<open>photos\<close>.
\<close>

theorem object_list_fetches_from_selected_container:
  assumes "container_name c = Some a"
    and "list_request c p d cn = Inr rq"
    and "list_objects_v2 sdk rq s = (Inr res, s1)"
    and "HTTPStatusCode res = Some 200"
  shows "lo_Bucket rq = (case cn of None \<Rightarrow> a | Some b \<Rightarrow> b)
         \<and> object_list sdk c True p d cn s =
             (case fetched_from sdk a (map Key (Contents res)) s1 of
                (Inl e, s2) \<Rightarrow> (Inl e, s2)
              | (Inr vs, s2) \<Rightarrow> (Inr (map (map_option Object) vs @ listed_subdirs res), s2))"
proof -
  let ?objs = "map (\<lambda>ob. Some (ObjectInfo (Key ob) (Some (Size ob)) (Some (ETag ob)) None None))
                   (Contents res)"
  have m: "?objs = map Some (map (\<lambda>ob. ObjectInfo (Key ob) (Some (Size ob)) (Some (ETag ob)) None None)
                   (Contents res))" by simp
  have k: "map name (map (\<lambda>ob. ObjectInfo (Key ob) (Some (Size ob)) (Some (ETag ob)) None None)
                   (Contents res)) = map Key (Contents res)"
    by (simp add: ObjectInfo_def o_def)
  from fetch_loop_as_requests [OF assms(1), of sdk "[]"
         "map (\<lambda>ob. ObjectInfo (Key ob) (Some (Size ob)) (Some (ETag ob)) None None) (Contents res)" s1]
  have loop: "fetch_loop sdk c 0 ?objs s1
     = (case fetched_from sdk a (map Key (Contents res)) s1 of
          (Inl e, s') \<Rightarrow> (Inl e, s')
        | (Inr vs, s') \<Rightarrow> (Inr vs, s'))"
    unfolding k m by (simp split: prod.splits sum.splits)
  have bucket: "lo_Bucket rq = (case cn of None \<Rightarrow> a | Some b \<Rightarrow> b)"
    using assms(1,2)
    by (auto simp: list_request_def self_container_name_def split: option.splits sum.splits)
  have run: "object_list sdk c True p d cn s =
             (case fetched_from sdk a (map Key (Contents res)) s1 of
                (Inl e, s2) \<Rightarrow> (Inl e, s2)
              | (Inr vs, s2) \<Rightarrow> (Inr (map (map_option Object) vs @ listed_subdirs res), s2))"
    using assms(2,3,4) loop
    by (simp add: object_list_def status_ok_def listed_subdirs_def Let_def
          split: prod.splits sum.splits)
  from bucket run show ?thesis by (rule conjI)
qed

theorem object_list_fetches_from_selected_container_witness:
  "container_name cl = Some ''photos''
   \<and> list_request cl None None (Some ''backup'')
       = Inr \<lparr>lo_Bucket = ''backup'', lo_Prefix = None, lo_Delimiter = None,
              lo_ContinuationToken = None\<rparr>
   \<and> list_objects_v2 (heads_only ''photos'' mem_sdk)
        \<lparr>lo_Bucket = ''backup'', lo_Prefix = None, lo_Delimiter = None,
         lo_ContinuationToken = None\<rparr> (demo 2 2)
       = (Inr \<lparr>HTTPStatusCode = Some 200,
               Contents = [\<lparr>Key = ''cat'', Size = 12, ETag = quoted ''c0''\<rparr>],
               CommonPrefixes = [], IsTruncated = False, NextContinuationToken = None\<rparr>,
          demo 2 2)
   \<and> head_object (heads_only ''photos'' mem_sdk) ''backup'' ''cat'' (demo 2 2)
       = (Inl EndpointConnectionError, demo 2 2)
   \<and> fetched_from (heads_only ''photos'' mem_sdk) ''photos'' [''cat''] (demo 2 2)
       = (Inr [Some (full_info (stored ''cat'' ''meow'' ''c1'' [(''owner'', ''ann'')]))], demo 2 2)
   \<and> object_list (heads_only ''photos'' mem_sdk) cl True None None (Some ''backup'') (demo 2 2)
       = (Inr backup_fetched, demo 2 2)"
proof -
  let ?sdk = "heads_only ''photos'' mem_sdk"
  let ?rq = "\<lparr>lo_Bucket = ''backup'', lo_Prefix = None, lo_Delimiter = None,
              lo_ContinuationToken = None\<rparr>"
  let ?res = "\<lparr>HTTPStatusCode = Some 200,
               Contents = [\<lparr>Key = ''cat'', Size = 12, ETag = quoted ''c0''\<rparr>],
               CommonPrefixes = [], IsTruncated = False, NextContinuationToken = None\<rparr>"
  have sel: "container_name cl = Some ''photos''" by (simp add: demo_defs)
  have rq: "list_request cl None None (Some ''backup'') = Inr ?rq"
    by (simp add: client_defs)
  have lst: "list_objects_v2 ?sdk ?rq (demo 2 2) = (Inr ?res, demo 2 2)"
    by (simp add: heads_only_def mem_defs demo_defs)
  have ok: "HTTPStatusCode ?res = Some 200" by simp
  have off: "head_object ?sdk ''backup'' ''cat'' (demo 2 2)
               = (Inl EndpointConnectionError, demo 2 2)"
    by (simp add: heads_only_def)
  have fetched: "fetched_from ?sdk ''photos'' [''cat''] (demo 2 2)
       = (Inr [Some (full_info (stored ''cat'' ''meow'' ''c1'' [(''owner'', ''ann'')]))], demo 2 2)"
    by (simp add: heads_only_def described_by_def full_info_def mem_defs demo_defs)
  from object_list_fetches_from_selected_container [OF sel rq lst ok]
  have "object_list ?sdk cl True None None (Some ''backup'') (demo 2 2)
          = (case fetched_from ?sdk ''photos'' [''cat''] (demo 2 2) of
               (Inl e, s2) \<Rightarrow> (Inl e, s2)
             | (Inr vs, s2) \<Rightarrow> (Inr (map (map_option Object) vs @ listed_subdirs ?res), s2))"
    by simp
  then have run: "object_list ?sdk cl True None None (Some ''backup'') (demo 2 2)
          = (Inr backup_fetched, demo 2 2)"
    unfolding fetched
    by (simp add: listed_subdirs_def backup_fetched_def full_info_def strip_quotes_def
          stored_def quoted_def)
  show ?thesis
    by (rule conjI [OF sel conjI [OF rq conjI [OF lst conjI [OF off conjI [OF fetched run]]]]])
qed

subsection \<open>Metadata of the same object\<close>

text \<open>
  C7: with metadata requested, each object entry of the listing should be replaced by the
  metadata of the same object, entry by entry. The client has \<open>photos\<close> selected. The plain
  listing of \<open>backup\<close> has one entry, the 12-byte object \<open>cat\<close> of \<open>backup\<close>; with metadata the
  entry carries the size, hash and metadata of the object \<open>cat\<close> of \<open>photos\<close>. The plain
  listing of \<open>docs\<close> has three entries; with metadata the call raises, no key of \<open>docs\<close>
  being a key of \<open>photos\<close>.
\<close>

theorem object_list_enriches_from_another_container:
  "container_name cl = Some ''photos''
   \<and> lookup_object (demo 5 2) ''backup'' ''cat''
       = Some (stored ''cat'' ''an older cat'' ''c0'' [(''owner'', ''bob'')])
   \<and> object_list mem_sdk cl False None None (Some ''backup'') (demo 5 2)
       = (Inr backup_plain, demo 5 2)
   \<and> object_list mem_sdk cl True None None (Some ''backup'') (demo 5 2)
       = (Inr backup_fetched, demo 5 2)
   \<and> object_list mem_sdk cl False None None (Some ''docs'') (demo 5 2)
       = (Inr docs_plain, demo 5 2)
   \<and> object_list mem_sdk cl True None None (Some ''docs'') (demo 5 2)
       = (Inl (ClientError ''404''), demo 5 2)"
proof -
  have sel: "container_name cl = Some ''photos''" by (simp add: demo_defs)
  have bk: "lookup_object (demo 5 2) ''backup'' ''cat''
       = Some (stored ''cat'' ''an older cat'' ''c0'' [(''owner'', ''bob'')])"
    by (simp add: mem_defs demo_defs)
  have p1: "object_list mem_sdk cl False None None (Some ''backup'') (demo 5 2)
       = (Inr backup_plain, demo 5 2)"
    by (simp add: object_list_def backup_plain_def client_defs mem_defs demo_defs)
  have f1: "object_list mem_sdk cl True None None (Some ''backup'') (demo 5 2)
       = (Inr backup_fetched, demo 5 2)"
    by (simp add: object_list_def object_info_of_def fetch_loop_step fetch_loop_done
          backup_fetched_def client_defs mem_defs demo_defs strip_quotes_def ObjectInfo_def)
  have p2: "object_list mem_sdk cl False None None (Some ''docs'') (demo 5 2)
       = (Inr docs_plain, demo 5 2)"
    by (simp add: object_list_def docs_plain_def client_defs mem_defs demo_defs)
  have f2: "object_list mem_sdk cl True None None (Some ''docs'') (demo 5 2)
       = (Inl (ClientError ''404''), demo 5 2)"
    by (simp add: object_list_def object_info_of_def fetch_loop_step fetch_loop_done
          client_defs mem_defs demo_defs ObjectInfo_def)
  show ?thesis
    by (rule conjI [OF sel conjI [OF bk conjI [OF p1 conjI [OF f1 conjI [OF p2 f2]]]]])
qed

subsection \<open>Replacing the metadata of an object\<close>

text \<open>Facts about the in-memory store.\<close>

lemma find_object_key: "find_object objs k = Some ob \<Longrightarrow> so_key ob = k"
  by (auto simp: find_object_def find_Some_iff)

lemma find_object_append:
  "find_object (objs @ [ob]) k =
     (case find_object objs k of
        Some y \<Rightarrow> Some y
      | None \<Rightarrow> if so_key ob = k then Some ob else None)"
  by (induction objs) (simp_all add: find_object_def)

lemma find_object_replace_same:
  "find_object objs (so_key ob) \<noteq> None \<Longrightarrow>
     find_object (map (\<lambda>x. if so_key x = so_key ob then ob else x) objs) (so_key ob) = Some ob"
  by (induction objs) (auto simp: find_object_def)

lemma find_object_replace_other:
  "k \<noteq> so_key ob \<Longrightarrow>
     find_object (map (\<lambda>x. if so_key x = so_key ob then ob else x) objs) k = find_object objs k"
  by (induction objs) (auto simp: find_object_def)

lemma find_object_put:
  "find_object (put_object ob objs) k = (if k = so_key ob then Some ob else find_object objs k)"
proof (cases "find_object objs (so_key ob) = None")
  case True
  then show ?thesis
    by (auto simp: put_object_def find_object_append split: option.splits)
next
  case False
  then show ?thesis
    by (auto simp: put_object_def find_object_replace_same find_object_replace_other)
qed

lemma map_of_rewrite_bucket:
  "map_of (map (\<lambda>entry. if fst entry = b then (fst entry, g (snd entry)) else entry) xs) b'
     = (if b' = b then map_option g (map_of xs b') else map_of xs b')"
  by (induction xs) auto

text \<open>
  C5: on the in-memory provider, for a client with the container \<open>b\<close> selected. When the
  object exists, \<open>object_replace_metadata\<close> returns \<open>True\<close> and afterwards the object is the
  one stored before with its metadata replaced by the new set: key, body, entity tag and
  content type unchanged; every other object of every container is as before. When the
  object does not exist, the method raises the provider's error and the store is unchanged.
\<close>

theorem object_replace_metadata_on_store:
  assumes "container_name c = Some b" and "map_of (store s) b = Some objs"
  shows "(case find_object objs k of
            None \<Rightarrow> object_replace_metadata mem_sdk c k meta s = (Inl (ClientError ''NoSuchKey''), s)
          | Some ob \<Rightarrow>
              (\<exists>s'. object_replace_metadata mem_sdk c k meta s = (Inr True, s')
                  \<and> lookup_object s' b k = Some (ob\<lparr>so_metadata := meta\<rparr>)
                  \<and> (\<forall>b' k'. (b', k') \<noteq> (b, k) \<longrightarrow>
                        lookup_object s' b' k' = lookup_object s b' k')))"
proof (cases "find_object objs k")
  case None
  with assms show ?thesis
    by (simp add: object_replace_metadata_def self_container_name_def mem_sdk_def
          mem_copy_object_def)
next
  case (Some ob)
  then have key: "so_key ob = k" by (rule find_object_key)
  let ?ob = "ob\<lparr>so_metadata := meta\<rparr>"
  let ?s' = "s\<lparr>store := map (\<lambda>entry. if fst entry = b
                                         then (fst entry, put_object ?ob (snd entry))
                                         else entry) (store s)\<rparr>"
  have same: "ob\<lparr>so_key := k\<rparr> = ob" unfolding key [symmetric] by simp
  have run: "object_replace_metadata mem_sdk c k meta s = (Inr True, ?s')"
    using assms Some same
    by (simp add: object_replace_metadata_def self_container_name_def mem_sdk_def
          mem_copy_object_def responded_def status_ok_def Let_def)
  have look: "lookup_object ?s' b' k'
                = (if b' = b \<and> k' = k then Some ?ob else lookup_object s b' k')" for b' k'
    using assms(2) key
    by (auto simp: lookup_object_def map_of_rewrite_bucket find_object_put
             split: option.splits)
  have "lookup_object ?s' b k = Some ?ob" by (simp add: look)
  moreover have "\<forall>b' k'. (b', k') \<noteq> (b, k) \<longrightarrow> lookup_object ?s' b' k' = lookup_object s b' k'"
    by (auto simp: look)
  ultimately show ?thesis using run Some by auto
qed

theorem object_replace_metadata_on_store_witness:
  "container_name cl = Some ''photos''
   \<and> lookup_object (demo 2 2) ''photos'' ''cat''
       = Some (stored ''cat'' ''meow'' ''c1'' [(''owner'', ''ann'')])
   \<and> lookup_object (demo 2 2) ''photos'' ''yak'' = None
   \<and> (\<exists>s'. object_replace_metadata mem_sdk cl ''cat'' [(''owner'', ''eve'')] (demo 2 2)
            = (Inr True, s')
          \<and> lookup_object s' ''photos'' ''cat''
            = Some (stored ''cat'' ''meow'' ''c1'' [(''owner'', ''eve'')]))
   \<and> object_replace_metadata mem_sdk cl ''yak'' [(''owner'', ''eve'')] (demo 2 2)
       = (Inl (ClientError ''NoSuchKey''), demo 2 2)"
proof -
  have sel: "container_name cl = Some ''photos''" by (simp add: demo_defs)
  have bucket: "map_of (store (demo 2 2)) ''photos''
                  = Some [stored ''cat'' ''meow'' ''c1'' [(''owner'', ''ann'')],
                          stored ''dog'' ''woof!'' ''d1'' [],
                          stored ''emu'' ''boom'' ''e1'' []]"
    by (simp add: demo_defs)
  have cat: "lookup_object (demo 2 2) ''photos'' ''cat''
       = Some (stored ''cat'' ''meow'' ''c1'' [(''owner'', ''ann'')])"
    by (simp add: lookup_object_def find_object_def demo_defs)
  have yak: "lookup_object (demo 2 2) ''photos'' ''yak'' = None"
    by (simp add: lookup_object_def find_object_def demo_defs)
  from object_replace_metadata_on_store [OF sel bucket, of "''cat''" "[(''owner'', ''eve'')]"]
  have there: "\<exists>s'. object_replace_metadata mem_sdk cl ''cat'' [(''owner'', ''eve'')] (demo 2 2)
            = (Inr True, s')
          \<and> lookup_object s' ''photos'' ''cat''
            = Some (stored ''cat'' ''meow'' ''c1'' [(''owner'', ''eve'')])"
    by (auto simp: find_object_def stored_def)
  from object_replace_metadata_on_store [OF sel bucket, of "''yak''" "[(''owner'', ''eve'')]"]
  have missing: "object_replace_metadata mem_sdk cl ''yak'' [(''owner'', ''eve'')] (demo 2 2)
       = (Inl (ClientError ''NoSuchKey''), demo 2 2)"
    by (simp add: find_object_def stored_def)
  show ?thesis
    by (rule conjI [OF sel conjI [OF cat conjI [OF yak conjI [OF there missing]]]])
qed

end
